theory Spec2Isabelle
  imports Main "HOL-Library.AList"
begin

section \<open>The APPLY construct of the MSSQL dialect (\<open>dialects/mssql/apply.py\<close>)\<close>

text \<open>
  The module defines one class, \<open>Apply\<close>, a from-clause with two operands and a flag,
  and \<open>ext.py\<close> publishes two factories for it. Everything else the class touches
  (the coercion service, the other from-clause classes, the column collection, the
  select builder, the clone set) lives in modules that are not part of these sources.
  Those collaborators enter the model as function parameters, or where the
  specification describes them, as definitions marked \<open>Modelled from the spec\<close>.
\<close>

subsection \<open>Data model\<close>

text \<open>
  Python objects have identity. Every \<open>Apply\<close> carries the token \<open>id(self)\<close>, and a
  relation of another class is described by a value of the parameter type \<open>'r\<close> that
  identifies it, so \<open>x is y\<close> is equality of the values.

  \<open>Relation\<close> stands for an instance of any from-clause class outside this module
  (a table, an alias, a join, a select). \<open>FromGrouping\<close> is the wrapper class that
  \<open>self_group\<close> instantiates. \<open>ApplyClause\<close> is the view of an \<open>Apply\<close> as a
  from-clause (the subclass relation \<open>Apply(FromClause)\<close>).
\<close>

type_synonym ident = nat

datatype 'r fromclause =
    Relation 'r
  | FromGrouping (element: "'r fromclause")
  | ApplyClause "'r apply_obj"
and 'r apply_obj =
    Apply (ident: ident) (left: "'r fromclause") (right: "'r fromclause") (isouter: bool)

text \<open>
  A column, as far as \<open>_populate_column_collection\<close> reads it: its identity, its
  disambiguated label key \<open>col._key_label\<close> and its set \<open>col.foreign_keys\<close>.
\<close>

type_synonym fk = nat

record column =
  col_id :: ident
  key_label :: string
  col_foreign_keys :: "fk set"

text \<open>
  The two collections of a from-clause that column population writes:
  \<open>self._columns\<close> (an insertion-ordered keyed collection, here the list of its
  \<open>(key, column)\<close> entries in order) and \<open>self.foreign_keys\<close> (a set).
\<close>

record collections =
  columns_coll :: "(string \<times> column) list"
  foreign_keys :: "fk set"

subsection \<open>Construction\<close>

text \<open>
  \<open>self_group(self, against=None)\<close>: \<open>return FromGrouping(self)\<close>. The context hint
  \<open>against\<close> is an optional operator of some type \<open>'a\<close>.
\<close>

definition self_group :: "'r apply_obj \<Rightarrow> 'a option \<Rightarrow> 'r fromclause" where
  "self_group self against = FromGrouping (ApplyClause self)"

text \<open>
  The method call \<open>x.self_group(against)\<close> on an arbitrary from-clause dispatches on
  the class of \<open>x\<close>: an \<open>Apply\<close> runs the method above, any other class runs its own
  method, the parameter \<open>ext_self_group\<close>.
\<close>

fun fc_self_group ::
  "('r fromclause \<Rightarrow> 'a option \<Rightarrow> 'r fromclause) \<Rightarrow> 'r fromclause \<Rightarrow> 'a option \<Rightarrow> 'r fromclause"
where
  "fc_self_group ext_self_group (ApplyClause a) against = self_group a against"
| "fc_self_group ext_self_group (Relation r) against = ext_self_group (Relation r) against"
| "fc_self_group ext_self_group (FromGrouping e) against = ext_self_group (FromGrouping e) against"

text \<open>
  \<open>Apply.__init__(self, left, right, isouter=False)\<close>:
  \<^verbatim>\<open>
    self.left = coercions.expect(roles.FromClauseRole, left)
    self.right = coercions.expect(roles.FromClauseRole, right).self_group()
    self.isouter = isouter
  \<close>
  The coercion service is the parameter \<open>expect\<close>: it returns the from-clause an
  argument of type \<open>'x\<close> is coerced to, or raises an error of type \<open>'e\<close>. The
  constructor call \<open>cls(left, right, isouter)\<close> allocates the instance (identity
  token \<open>i\<close>), runs \<open>__init__\<close> and returns the instance unless \<open>__init__\<close> raised.
  \<open>Apply_init\<close> is what the caller of \<open>cls(...)\<close> receives.
\<close>

definition Apply_init ::
  "('x \<Rightarrow> 'e + 'r fromclause) \<Rightarrow> ('r fromclause \<Rightarrow> 'a option \<Rightarrow> 'r fromclause) \<Rightarrow>
   ident \<Rightarrow> 'x \<Rightarrow> 'x \<Rightarrow> bool \<Rightarrow> 'e + 'r apply_obj"
where
  "Apply_init expect ext_self_group i left_arg right_arg isouter_arg =
     (case expect left_arg of
        Inl e \<Rightarrow> Inl e
      | Inr l \<Rightarrow>
          (case expect right_arg of
             Inl e \<Rightarrow> Inl e
           | Inr r \<Rightarrow> Inr (Apply i l (fc_self_group ext_self_group r None) isouter_arg)))"

text \<open>
  The same three statements as writes to the attribute store. An instance is its
  attribute dictionary, the store maps identity tokens to instances, and
  \<open>self.name = v\<close> updates the dictionary of \<open>self\<close> only. \<open>Apply_init_store\<close> is the
  body of \<open>__init__\<close>: it returns the error raised, if any, and the store it leaves.
  \<open>Apply_new\<close> is the call \<open>cls(left, right, isouter)\<close>: it allocates the instance
  with an empty dictionary, runs the body, and hands out the reference only when the
  body did not raise.
\<close>

datatype 'r attr = ClauseAttr "'r fromclause" | BoolAttr bool

type_synonym 'r instance_dict = "string \<rightharpoonup> 'r attr"

type_synonym 'r store = "ident \<rightharpoonup> 'r instance_dict"

definition setattr :: "'r store \<Rightarrow> ident \<Rightarrow> string \<Rightarrow> 'r attr \<Rightarrow> 'r store" where
  "setattr h self name v =
     h(self \<mapsto> (case h self of None \<Rightarrow> Map.empty | Some d \<Rightarrow> d)(name \<mapsto> v))"

definition Apply_init_store ::
  "('x \<Rightarrow> 'e + 'r fromclause) \<Rightarrow> ('r fromclause \<Rightarrow> 'a option \<Rightarrow> 'r fromclause) \<Rightarrow>
   ident \<Rightarrow> 'x \<Rightarrow> 'x \<Rightarrow> bool \<Rightarrow> 'r store \<Rightarrow> 'e option \<times> 'r store"
where
  "Apply_init_store expect ext_self_group self left_arg right_arg isouter_arg h =
     (case expect left_arg of
        Inl e \<Rightarrow> (Some e, h)
      | Inr l \<Rightarrow>
          (let h1 = setattr h self ''left'' (ClauseAttr l) in
           case expect right_arg of
             Inl e \<Rightarrow> (Some e, h1)
           | Inr r \<Rightarrow>
               (let h2 = setattr h1 self ''right''
                           (ClauseAttr (fc_self_group ext_self_group r None));
                    h3 = setattr h2 self ''isouter'' (BoolAttr isouter_arg)
                in (None, h3))))"

definition Apply_new ::
  "('x \<Rightarrow> 'e + 'r fromclause) \<Rightarrow> ('r fromclause \<Rightarrow> 'a option \<Rightarrow> 'r fromclause) \<Rightarrow>
   ident \<Rightarrow> 'x \<Rightarrow> 'x \<Rightarrow> bool \<Rightarrow> 'r store \<Rightarrow> ('e + ident) \<times> 'r store"
where
  "Apply_new expect ext_self_group self left_arg right_arg isouter_arg h =
     (case Apply_init_store expect ext_self_group self left_arg right_arg isouter_arg
             (h(self \<mapsto> Map.empty)) of
        (Some e, h') \<Rightarrow> (Inl e, h')
      | (None, h') \<Rightarrow> (Inr self, h'))"

text \<open>
  The instance a dictionary describes, when all three attributes are set with values
  of the right kind.
\<close>

definition instance_of :: "ident \<Rightarrow> 'r instance_dict \<Rightarrow> 'r apply_obj option" where
  "instance_of i d =
     (case (d ''left'', d ''right'', d ''isouter'') of
        (Some (ClauseAttr l), Some (ClauseAttr r), Some (BoolAttr b)) \<Rightarrow> Some (Apply i l r b)
      | _ \<Rightarrow> None)"

text \<open>
  The class methods behind the public factories:
  \<open>_create_outerapply(cls, left, right)\<close> is \<open>cls(left, right, isouter=True)\<close>, and
  \<open>_create_apply(cls, left, right, isouter=False)\<close> is \<open>cls(left, right, isouter)\<close>.
  The optional argument is an \<open>option\<close>: \<open>None\<close> when the caller leaves it out.
\<close>

definition create_outerapply ::
  "('x \<Rightarrow> 'e + 'r fromclause) \<Rightarrow> ('r fromclause \<Rightarrow> 'a option \<Rightarrow> 'r fromclause) \<Rightarrow>
   ident \<Rightarrow> 'x \<Rightarrow> 'x \<Rightarrow> 'e + 'r apply_obj"
where
  "create_outerapply expect ext_self_group i left_arg right_arg =
     Apply_init expect ext_self_group i left_arg right_arg True"

definition create_apply ::
  "('x \<Rightarrow> 'e + 'r fromclause) \<Rightarrow> ('r fromclause \<Rightarrow> 'a option \<Rightarrow> 'r fromclause) \<Rightarrow>
   ident \<Rightarrow> 'x \<Rightarrow> 'x \<Rightarrow> bool option \<Rightarrow> 'e + 'r apply_obj"
where
  "create_apply expect ext_self_group i left_arg right_arg isouter_opt =
     Apply_init expect ext_self_group i left_arg right_arg
       (case isouter_opt of None \<Rightarrow> False | Some b \<Rightarrow> b)"

text \<open>
  Modelled from the spec: \<open>util.langhelpers.public_factory\<close>, which is not part of
  these sources. The specification calls its results the named constructors of the
  class, so the published function is the class method it was given, under a
  module-level name (the second argument).
\<close>

definition public_factory :: "'f \<Rightarrow> string \<Rightarrow> 'f" where
  "public_factory target location = target"

text \<open>
  \<open>ext.py\<close>: \<open>apply = public_factory(Apply._create_apply, ".dialects.mssql.apply")\<close>
  and \<open>outerapply = public_factory(Apply._create_outerapply, ".dialects.mssql.outerapply")\<close>.
  The first is named \<open>apply_factory\<close> here.
\<close>

definition apply_factory ::
  "('x \<Rightarrow> 'e + 'r fromclause) \<Rightarrow> ('r fromclause \<Rightarrow> 'a option \<Rightarrow> 'r fromclause) \<Rightarrow>
   ident \<Rightarrow> 'x \<Rightarrow> 'x \<Rightarrow> bool option \<Rightarrow> 'e + 'r apply_obj"
where
  "apply_factory = public_factory create_apply ''.dialects.mssql.apply''"

definition outerapply ::
  "('x \<Rightarrow> 'e + 'r fromclause) \<Rightarrow> ('r fromclause \<Rightarrow> 'a option \<Rightarrow> 'r fromclause) \<Rightarrow>
   ident \<Rightarrow> 'x \<Rightarrow> 'x \<Rightarrow> 'e + 'r apply_obj"
where
  "outerapply = public_factory create_outerapply ''.dialects.mssql.outerapply''"

subsection \<open>Ancestry query\<close>

text \<open>
  \<open>is_derived_from(self, fromclause)\<close>:
  \<^verbatim>\<open>
    return (fromclause is self
            or self.left.is_derived_from(fromclause)
            or self.right.is_derived_from(fromclause))
  \<close>
  The calls on the operands dispatch on their class: a nested \<open>Apply\<close> runs this
  method again, any other class runs its own, the parameter \<open>ext\<close>. Python's \<open>or\<close>
  evaluates its right operand only when the left one is false, which the chain of
  conditionals follows.
\<close>

fun fc_is_derived_from ::
  "('r fromclause \<Rightarrow> 'r fromclause \<Rightarrow> bool) \<Rightarrow> 'r fromclause \<Rightarrow> 'r fromclause \<Rightarrow> bool"
and is_derived_from ::
  "('r fromclause \<Rightarrow> 'r fromclause \<Rightarrow> bool) \<Rightarrow> 'r apply_obj \<Rightarrow> 'r fromclause \<Rightarrow> bool"
where
  "fc_is_derived_from ext (ApplyClause a) x = is_derived_from ext a x"
| "fc_is_derived_from ext (Relation r) x = ext (Relation r) x"
| "fc_is_derived_from ext (FromGrouping e) x = ext (FromGrouping e) x"
| "is_derived_from ext (Apply i l r ou) x =
     (if x = ApplyClause (Apply i l r ou) then True
      else if fc_is_derived_from ext l x then True
      else fc_is_derived_from ext r x)"

text \<open>
  The operand queries one evaluation of the \<open>or\<close> chain makes, in the order it makes
  them: none when the candidate is the node itself, the left operand's only when
  that answers true, both otherwise.
\<close>

datatype operand = LeftOperand | RightOperand

definition is_derived_from_queries ::
  "('r fromclause \<Rightarrow> 'r fromclause \<Rightarrow> bool) \<Rightarrow> 'r apply_obj \<Rightarrow> 'r fromclause \<Rightarrow> operand list"
where
  "is_derived_from_queries ext self x =
     (if x = ApplyClause self then []
      else if fc_is_derived_from ext (left self) x then [LeftOperand]
      else [LeftOperand, RightOperand])"

subsection \<open>Column population\<close>

text \<open>
  Modelled from the spec: \<open>ColumnCollection._populate_separate_keys\<close>, which is not
  part of these sources. The specification describes the collection as a key-unique,
  insertion-ordered mapping in which a later entry with a key already present takes
  the slot of the earlier one. \<open>AList.update\<close> is that insertion: it replaces the
  entry of the key where it stands, or appends a new entry at the end.
\<close>

definition populate_separate_keys ::
  "(string \<times> column) list \<Rightarrow> (string \<times> column) list \<Rightarrow> (string \<times> column) list"
where
  "populate_separate_keys coll entries = foldl (\<lambda>m (k, col). AList.update k col m) coll entries"

text \<open>
  Modelled from the spec: \<open>FromClause._init_collections\<close>, which is not part of
  these sources. The column collection is a cache that starts out unpopulated, so
  both collections are empty before the first population.
\<close>

definition init_collections :: collections where
  "init_collections = \<lparr>columns_coll = [], foreign_keys = {}\<rparr>"

text \<open>
  \<open>_populate_column_collection(self)\<close>:
  \<^verbatim>\<open>
    columns = [c for c in self.left.columns]
    columns += [c for c in self.right.columns]
    self._columns._populate_separate_keys(
        (col._key_label, col) for col in columns)
    self.foreign_keys.update(
        itertools.chain(*[col.foreign_keys for col in columns]))
  \<close>
  Iterating \<open>x.columns\<close> dispatches on the class of \<open>x\<close>. The columns of a relation of
  another class are the parameter \<open>ext\<close>; those of a nested \<open>Apply\<close> are the columns
  its own collection holds once populated (Modelled from the spec: the \<open>columns\<close>
  property of \<open>FromClause\<close>, populated on first access).
\<close>

fun fc_columns :: "('r fromclause \<Rightarrow> column list) \<Rightarrow> 'r fromclause \<Rightarrow> column list"
and columns :: "('r fromclause \<Rightarrow> column list) \<Rightarrow> 'r apply_obj \<Rightarrow> column list"
and populate_column_collection ::
  "('r fromclause \<Rightarrow> column list) \<Rightarrow> 'r apply_obj \<Rightarrow> collections \<Rightarrow> collections"
where
  "fc_columns ext (ApplyClause a) = columns ext a"
| "fc_columns ext (Relation r) = ext (Relation r)"
| "fc_columns ext (FromGrouping e) = ext (FromGrouping e)"
| "columns ext (Apply i l r ou) =
     map snd (columns_coll (populate_column_collection ext (Apply i l r ou) init_collections))"
| "populate_column_collection ext (Apply i l r ou) st =
     (let cols = fc_columns ext l @ fc_columns ext r in
      st\<lparr>columns_coll :=
           populate_separate_keys (columns_coll st) (map (\<lambda>col. (key_label col, col)) cols),
         foreign_keys := foreign_keys st \<union> \<Union> (set (map col_foreign_keys cols))\<rparr>)"

subsection \<open>Refresh for a new column\<close>

text \<open>
  \<open>_refresh_for_new_column(self, column)\<close>:
  \<^verbatim>\<open>
    super(Apply, self)._refresh_for_new_column(column)
    self.left._refresh_for_new_column(column)
    self.right._refresh_for_new_column(column)
  \<close>
  The three calls act on the state of the expression tree, of some type \<open>'s\<close>, one
  after the other. The inherited method is the parameter \<open>base\<close>, the method of an
  operand of another class the parameter \<open>ext\<close>.
\<close>

fun fc_refresh_for_new_column ::
  "('r fromclause \<Rightarrow> column \<Rightarrow> 's \<Rightarrow> 's) \<Rightarrow> ('r apply_obj \<Rightarrow> column \<Rightarrow> 's \<Rightarrow> 's) \<Rightarrow>
   'r fromclause \<Rightarrow> column \<Rightarrow> 's \<Rightarrow> 's"
and refresh_for_new_column ::
  "('r fromclause \<Rightarrow> column \<Rightarrow> 's \<Rightarrow> 's) \<Rightarrow> ('r apply_obj \<Rightarrow> column \<Rightarrow> 's \<Rightarrow> 's) \<Rightarrow>
   'r apply_obj \<Rightarrow> column \<Rightarrow> 's \<Rightarrow> 's"
where
  "fc_refresh_for_new_column ext base (ApplyClause a) c s = refresh_for_new_column ext base a c s"
| "fc_refresh_for_new_column ext base (Relation r) c s = ext (Relation r) c s"
| "fc_refresh_for_new_column ext base (FromGrouping e) c s = ext (FromGrouping e) c s"
| "refresh_for_new_column ext base (Apply i l r ou) c s =
     (let s1 = base (Apply i l r ou) c s;
          s2 = fc_refresh_for_new_column ext base l c s1;
          s3 = fc_refresh_for_new_column ext base r c s2
      in s3)"

text \<open>
  A state that records the calls: each refresh appends the object it ran on.
\<close>

datatype 'r refresh_event = BaseRefresh "'r apply_obj" | OperandRefresh "'r fromclause"

definition log_operand :: "'r fromclause \<Rightarrow> column \<Rightarrow> 'r refresh_event list \<Rightarrow> 'r refresh_event list" where
  "log_operand x c s = s @ [OperandRefresh x]"

definition log_base :: "'r apply_obj \<Rightarrow> column \<Rightarrow> 'r refresh_event list \<Rightarrow> 'r refresh_event list" where
  "log_base a c s = s @ [BaseRefresh a]"

subsection \<open>From-object flattening\<close>

text \<open>
  The property \<open>_from_objects\<close>:
  \<open>return [self] + self.left._from_objects + self.right._from_objects\<close>.
  The property of an operand of another class is the parameter \<open>ext\<close>.
\<close>

fun fc_from_objects ::
  "('r fromclause \<Rightarrow> 'r fromclause list) \<Rightarrow> 'r fromclause \<Rightarrow> 'r fromclause list"
and from_objects ::
  "('r fromclause \<Rightarrow> 'r fromclause list) \<Rightarrow> 'r apply_obj \<Rightarrow> 'r fromclause list"
where
  "fc_from_objects ext (ApplyClause a) = from_objects ext a"
| "fc_from_objects ext (Relation r) = ext (Relation r)"
| "fc_from_objects ext (FromGrouping e) = ext (FromGrouping e)"
| "from_objects ext (Apply i l r ou) =
     [ApplyClause (Apply i l r ou)] @ fc_from_objects ext l @ fc_from_objects ext r"

text \<open>
  Modelled from the spec: the helper \<open>sql.base._from_objects(*elements)\<close>, which is
  not part of these sources. The specification has it yield the from-objects the
  given elements contribute, flattened: the \<open>_from_objects\<close> of each element, one
  after the other.
\<close>

definition base_from_objects ::
  "('r fromclause \<Rightarrow> 'r fromclause list) \<Rightarrow> 'r fromclause list \<Rightarrow> 'r fromclause list"
where
  "base_from_objects ext elements = concat (map (fc_from_objects ext) elements)"

text \<open>
  The property \<open>_hide_froms\<close>:
  \<^verbatim>\<open>
    return itertools.chain(
        *[_from_objects(x.left, x.right) for x in self._cloned_set])
  \<close>
  \<open>self._cloned_set\<close> is inherited from a class outside these sources; it is the
  parameter \<open>cloned_set\<close>, which lists the clones of a node in the order the set
  iterates them.
\<close>

definition hide_froms ::
  "('r fromclause \<Rightarrow> 'r fromclause list) \<Rightarrow> ('r apply_obj \<Rightarrow> 'r apply_obj list) \<Rightarrow>
   'r apply_obj \<Rightarrow> 'r fromclause list"
where
  "hide_froms ext cloned_set self =
     concat (map (\<lambda>x. base_from_objects ext [left x, right x]) (cloned_set self))"

subsection \<open>Statement construction\<close>

text \<open>
  Modelled from the spec: the \<open>Select\<close> builder, which is not part of these sources.
  A statement keeps the inputs it was built from: the list of selected inputs, the
  filter criterion, the explicit FROM sources and the remaining keyword arguments,
  untouched. Each selected input contributes its own column set.
\<close>

record ('r, 'w, 'v) select_stmt =
  raw_columns :: "'r fromclause list"
  whereclause :: "'w option"
  from_obj :: "'r fromclause list"
  kwargs :: "(string \<times> 'v) list"

definition selected_columns ::
  "('r fromclause \<Rightarrow> column list) \<Rightarrow> ('r, 'w, 'v) select_stmt \<Rightarrow> column list"
where
  "selected_columns ext stmt = concat (map (fc_columns ext) (raw_columns stmt))"

text \<open>
  \<open>select(self, whereclause=None, **kwargs)\<close>:
  \<^verbatim>\<open>
    collist = [self.left, self.right]
    return Select(collist, whereclause, from_obj=[self], **kwargs)
  \<close>
  The keyword arguments are a dictionary with string keys, here the list of its
  items. The call names \<open>from_obj\<close> itself, so Python raises \<open>TypeError\<close> (multiple
  values for the keyword argument) before \<open>Select\<close> runs when \<open>kwargs\<close> has that
  key as well.
\<close>

datatype py_error = TypeError

definition select ::
  "'r apply_obj \<Rightarrow> 'w option \<Rightarrow> (string \<times> 'v) list \<Rightarrow> py_error + ('r, 'w, 'v) select_stmt"
where
  "select self where_arg kwargs_arg =
     (let collist = [left self, right self] in
      if ''from_obj'' \<in> set (map fst kwargs_arg) then Inl TypeError
      else Inr \<lparr>raw_columns = collist, whereclause = where_arg,
                from_obj = [ApplyClause self], kwargs = kwargs_arg\<rparr>)"

subsection \<open>Sample collaborators\<close>

text \<open>
  Concrete collaborators for evaluating the definitions: relations are numbered
  tables. An argument is a table number, or \<open>None\<close> for a value that is no relation.
  A table is derived from itself only, contributes itself as its one from-object,
  and is grouped by wrapping it once. A grouping passes the ancestry query on to
  its element, so it accepts what its element accepts and is not derived from
  itself.
\<close>

definition table_expect :: "nat option \<Rightarrow> string + nat fromclause" where
  "table_expect v = (case v of None \<Rightarrow> Inl ''ArgumentError'' | Some n \<Rightarrow> Inr (Relation n))"

fun table_self_group :: "nat fromclause \<Rightarrow> nat option \<Rightarrow> nat fromclause" where
  "table_self_group (FromGrouping e) against = FromGrouping e"
| "table_self_group x against = FromGrouping x"

fun table_is_derived_from :: "nat fromclause \<Rightarrow> nat fromclause \<Rightarrow> bool" where
  "table_is_derived_from (Relation n) x = (x = Relation n)"
| "table_is_derived_from (FromGrouping e) x = table_is_derived_from e x"
| "table_is_derived_from (ApplyClause (Apply i l r ou)) x =
     (x = ApplyClause (Apply i l r ou) \<or> table_is_derived_from l x
        \<or> table_is_derived_from r x)"

fun table_from_objects :: "nat fromclause \<Rightarrow> nat fromclause list" where
  "table_from_objects (FromGrouping e) = table_from_objects e"
| "table_from_objects x = [x]"

text \<open>
  The columns of the specification's example: table 1 has columns \<open>a\<close> and \<open>b\<close>,
  table 2 has columns \<open>b\<close> and \<open>c\<close>, and the two \<open>b\<close> share the key.
\<close>

definition col_a :: column where
  "col_a = \<lparr>col_id = 11, key_label = ''a'', col_foreign_keys = {}\<rparr>"

definition col_b_left :: column where
  "col_b_left = \<lparr>col_id = 12, key_label = ''b'', col_foreign_keys = {101}\<rparr>"

definition col_b_right :: column where
  "col_b_right = \<lparr>col_id = 21, key_label = ''b'', col_foreign_keys = {102}\<rparr>"

definition col_c :: column where
  "col_c = \<lparr>col_id = 22, key_label = ''c'', col_foreign_keys = {101, 103}\<rparr>"

fun table_columns :: "nat fromclause \<Rightarrow> column list" where
  "table_columns (Relation n) =
     (if n = 1 then [col_a, col_b_left] else if n = 2 then [col_b_right, col_c] else [])"
| "table_columns (FromGrouping e) = table_columns e"
| "table_columns (ApplyClause a) = []"

text \<open>The APPLY of table 1 and table 2, as the constructor builds it.\<close>

definition sample_apply :: "nat apply_obj" where
  "sample_apply = Apply 7 (Relation 1) (FromGrouping (Relation 2)) False"

text \<open>
  A coercion for arguments that are from-clauses already, and the APPLY of table 5
  and the sample node: the constructor groups its right operand, and the grouping
  of an \<open>Apply\<close> is the wrapper that \<open>self_group\<close> of this module returns.
\<close>

definition clause_expect :: "nat fromclause option \<Rightarrow> string + nat fromclause" where
  "clause_expect v = (case v of None \<Rightarrow> Inl ''ArgumentError'' | Some x \<Rightarrow> Inr x)"

definition nested_apply :: "nat apply_obj" where
  "nested_apply = Apply 9 (Relation 5) (FromGrouping (ApplyClause sample_apply)) False"

text \<open>
  A second node that the sample clone set lists beside the node itself.
\<close>

definition sample_clone :: "nat apply_obj" where
  "sample_clone = Apply 8 (Relation 3) (FromGrouping (Relation 4)) False"

definition sample_cloned_set :: "nat apply_obj \<Rightarrow> nat apply_obj list" where
  "sample_cloned_set a = [a, sample_clone]"

subsection \<open>The merged column collection in the specification's words\<close>

text \<open>
  The specification describes the populated collection by two properties: the keys
  stand in the order in which they were first inserted, and the column found under a
  key is the last one inserted under it. \<open>first_occurrences\<close> lists the keys of a
  sequence in the order of their first occurrence, and \<open>last_with_key\<close> is the last
  column of a sequence that carries a given key.
\<close>

fun first_occurrences :: "'k list \<Rightarrow> 'k list" where
  "first_occurrences [] = []"
| "first_occurrences (k # ks) = k # filter (\<lambda>x. x \<noteq> k) (first_occurrences ks)"

definition last_with_key :: "string \<Rightarrow> column list \<Rightarrow> column option" where
  "last_with_key k cols =
     (case filter (\<lambda>c. key_label c = k) cols of [] \<Rightarrow> None | c # cs \<Rightarrow> Some (last (c # cs)))"

section \<open>Properties\<close>

subsection \<open>The factories\<close>

text \<open>
  C8. For all left and right arguments that the coercion accepts, the inner factory
  \<open>apply\<close>, called without the optional argument, returns an \<open>Apply\<close> whose
  \<open>isouter\<close> is false, and the factory \<open>outerapply\<close> returns one whose \<open>isouter\<close> is
  true. Both hold the coerced left operand and the grouped coerced right operand.
\<close>

theorem factories_isouter:
  assumes "expect left_arg = Inr l" and "expect right_arg = Inr r"
  shows "apply_factory expect sg i left_arg right_arg None
           = Inr (Apply i l (fc_self_group sg r None) False)
       \<and> outerapply expect sg i left_arg right_arg
           = Inr (Apply i l (fc_self_group sg r None) True)
       \<and> (\<exists>a. apply_factory expect sg i left_arg right_arg None = Inr a \<and> isouter a = False)
       \<and> (\<exists>a. outerapply expect sg i left_arg right_arg = Inr a \<and> isouter a = True)"
  using assms
  by (simp add: apply_factory_def outerapply_def public_factory_def create_apply_def
      create_outerapply_def Apply_init_def)

theorem factories_isouter_witness:
  "table_expect (Some 1) = Inr (Relation 1) \<and> table_expect (Some 2) = Inr (Relation 2)
   \<and> apply_factory table_expect table_self_group 7 (Some 1) (Some 2) None
        = Inr (Apply 7 (Relation 1) (FromGrouping (Relation 2)) False)
   \<and> outerapply table_expect table_self_group 7 (Some 1) (Some 2)
        = Inr (Apply 7 (Relation 1) (FromGrouping (Relation 2)) True)"
proof -
  have l: "table_expect (Some 1) = Inr (Relation 1)" by (simp add: table_expect_def)
  have r: "table_expect (Some 2) = Inr (Relation 2)" by (simp add: table_expect_def)
  show ?thesis
    using l r
      factories_isouter [where expect = table_expect and left_arg = "Some 1" and l = "Relation 1"
        and right_arg = "Some 2" and r = "Relation 2" and sg = table_self_group and i = 7]
    by simp
qed

text \<open>
  C10. The inner factory \<open>apply\<close> takes an optional third argument \<open>isouter\<close>. For
  all arguments that the coercion accepts, calling it with \<open>isouter=True\<close> returns an
  \<open>Apply\<close> whose \<open>isouter\<close> is true: the flag of the result is the flag passed.
\<close>

theorem apply_factory_isouter_arg:
  assumes "expect left_arg = Inr l" and "expect right_arg = Inr r"
  shows "apply_factory expect sg i left_arg right_arg (Some True)
           = Inr (Apply i l (fc_self_group sg r None) True)
       \<and> (\<exists>a. apply_factory expect sg i left_arg right_arg (Some True) = Inr a
              \<and> isouter a = True)
       \<and> (\<exists>a. apply_factory expect sg i left_arg right_arg (Some b) = Inr a \<and> isouter a = b)"
  using assms
  by (simp add: apply_factory_def public_factory_def create_apply_def Apply_init_def)

theorem apply_factory_isouter_arg_witness:
  "table_expect (Some 1) = Inr (Relation 1) \<and> table_expect (Some 2) = Inr (Relation 2)
   \<and> apply_factory table_expect table_self_group 7 (Some 1) (Some 2) (Some True)
        = Inr (Apply 7 (Relation 1) (FromGrouping (Relation 2)) True)"
proof -
  have l: "table_expect (Some 1) = Inr (Relation 1)" by (simp add: table_expect_def)
  have r: "table_expect (Some 2) = Inr (Relation 2)" by (simp add: table_expect_def)
  show ?thesis
    using l r
      apply_factory_isouter_arg [where expect = table_expect and left_arg = "Some 1"
        and l = "Relation 1" and right_arg = "Some 2" and r = "Relation 2"
        and sg = table_self_group and i = 7]
    by simp
qed

subsection \<open>From-object flattening\<close>

text \<open>
  C2. For every \<open>Apply\<close>, nested to any depth, the sequence \<open>_from_objects\<close> is the
  \<open>Apply\<close> itself, followed by the from-objects of its left operand, followed by
  those of its right operand, in that order. An operand that is itself an \<open>Apply\<close>
  contributes by the same rule.
\<close>

theorem from_objects_order:
  "from_objects ext a
     = [ApplyClause a] @ fc_from_objects ext (left a) @ fc_from_objects ext (right a)
   \<and> fc_from_objects ext (ApplyClause a) = from_objects ext a
   \<and> hd (from_objects ext a) = ApplyClause a"
  by (cases a) simp

subsection \<open>Grouping\<close>

text \<open>
  C5. For every \<open>Apply\<close> and every value of the context argument \<open>against\<close>,
  \<open>None\<close> included, \<open>self_group\<close> returns a \<open>FromGrouping\<close> whose element is the
  \<open>Apply\<close> itself. The result is never the bare \<open>Apply\<close> and is the same for every
  \<open>against\<close>, also when the method is reached by dispatch on a from-clause.
\<close>

theorem self_group_wraps:
  "self_group a against = FromGrouping (ApplyClause a)
   \<and> element (self_group a against) = ApplyClause a
   \<and> self_group a against \<noteq> ApplyClause a
   \<and> self_group a against = self_group a None
   \<and> fc_self_group ext (ApplyClause a) against = FromGrouping (ApplyClause a)"
  by (simp add: self_group_def)

subsection \<open>Hidden from-objects\<close>

text \<open>
  C7. For every \<open>Apply\<close>, \<open>_hide_froms\<close> yields, for every node of its clone set,
  the from-objects of that node's left operand followed by those of its right
  operand, one clone after the other. It enumerates the whole clone set: whatever
  node the set lists, the node itself included when the set lists it, contributes
  the from-objects of both its operands, and nothing else is yielded.
\<close>

theorem hide_froms_clones:
  "hide_froms ext cloned_set a
     = concat (map (\<lambda>x. fc_from_objects ext (left x) @ fc_from_objects ext (right x))
         (cloned_set a))
   \<and> set (hide_froms ext cloned_set a)
     = (\<Union>x \<in> set (cloned_set a).
          set (fc_from_objects ext (left x)) \<union> set (fc_from_objects ext (right x)))
   \<and> (x \<in> set (cloned_set a) \<longrightarrow>
        set (fc_from_objects ext (left x)) \<union> set (fc_from_objects ext (right x))
          \<subseteq> set (hide_froms ext cloned_set a))"
  by (auto simp: hide_froms_def base_from_objects_def)

theorem hide_froms_clones_witness:
  "sample_apply \<in> set (sample_cloned_set sample_apply)
   \<and> sample_clone \<in> set (sample_cloned_set sample_apply)
   \<and> hide_froms table_from_objects sample_cloned_set sample_apply
       = [Relation 1, Relation 2, Relation 3, Relation 4]
   \<and> set (fc_from_objects table_from_objects (left sample_clone))
        \<union> set (fc_from_objects table_from_objects (right sample_clone))
       \<subseteq> set (hide_froms table_from_objects sample_cloned_set sample_apply)"
proof -
  have m: "sample_clone \<in> set (sample_cloned_set sample_apply)"
    by (simp add: sample_cloned_set_def)
  show ?thesis
    using m hide_froms_clones [of table_from_objects sample_cloned_set sample_apply sample_clone]
    by (simp add: sample_cloned_set_def sample_apply_def sample_clone_def)
qed

subsection \<open>Ancestry query\<close>

text \<open>
  No operand of an \<open>Apply\<close> is the \<open>Apply\<close> itself: the node is larger than each
  of its operands.
\<close>

lemma operand_not_self:
  "left a \<noteq> ApplyClause a" "right a \<noteq> ApplyClause a"
proof -
  obtain i l r ou where a: "a = Apply i l r ou" by (cases a)
  have "size l < size (ApplyClause a)" "size r < size (ApplyClause a)"
    by (simp_all add: a)
  then show "left a \<noteq> ApplyClause a" "right a \<noteq> ApplyClause a"
    by (auto simp: a)
qed

text \<open>
  C3. For every \<open>Apply\<close> and every candidate \<open>x\<close>, \<open>is_derived_from(x)\<close> is true
  if and only if \<open>x\<close> is the \<open>Apply\<close> itself, or the left operand's query is true, or
  the right operand's query is true. The \<open>or\<close> chain short-circuits with the left
  operand first: no operand is queried when \<open>x\<close> is the node itself, and the right
  one only when the left one answered false. In particular the answer is true for
  the node itself and for anything either operand derives from, and false for a
  relation that is neither the node nor derived from by an operand. For \<open>x\<close> the
  left or the right operand the answer is true exactly when one of the operands'
  own queries accepts that operand; an operand that is an \<open>Apply\<close> always does.
\<close>

theorem is_derived_from_iff:
  "(is_derived_from ext a x \<longleftrightarrow>
      (x = ApplyClause a \<or> fc_is_derived_from ext (left a) x
         \<or> fc_is_derived_from ext (right a) x))
   \<and> is_derived_from ext a (ApplyClause a)
   \<and> fc_is_derived_from ext (ApplyClause a) x = is_derived_from ext a x
   \<and> (fc_is_derived_from ext (left a) x \<longrightarrow> is_derived_from ext a x)
   \<and> (fc_is_derived_from ext (right a) x \<longrightarrow> is_derived_from ext a x)
   \<and> (is_derived_from ext a (left a) \<longleftrightarrow>
        fc_is_derived_from ext (left a) (left a) \<or> fc_is_derived_from ext (right a) (left a))
   \<and> (is_derived_from ext a (right a) \<longleftrightarrow>
        fc_is_derived_from ext (left a) (right a) \<or> fc_is_derived_from ext (right a) (right a))
   \<and> is_derived_from ext (Apply i (ApplyClause b) r ou) (ApplyClause b)
   \<and> is_derived_from ext (Apply i l (ApplyClause b) ou) (ApplyClause b)
   \<and> (x \<noteq> ApplyClause a \<and> \<not> fc_is_derived_from ext (left a) x
        \<and> \<not> fc_is_derived_from ext (right a) x \<longrightarrow> \<not> is_derived_from ext a x)
   \<and> (LeftOperand \<in> set (is_derived_from_queries ext a x) \<longleftrightarrow> x \<noteq> ApplyClause a)
   \<and> (RightOperand \<in> set (is_derived_from_queries ext a x) \<longleftrightarrow>
        x \<noteq> ApplyClause a \<and> \<not> fc_is_derived_from ext (left a) x)
   \<and> is_derived_from_queries ext a x \<in> {[], [LeftOperand], [LeftOperand, RightOperand]}"
proof -
  have iff: "is_derived_from ext a' y \<longleftrightarrow>
      (y = ApplyClause a' \<or> fc_is_derived_from ext (left a') y
         \<or> fc_is_derived_from ext (right a') y)" for a' y
    by (cases a') simp
  have self: "is_derived_from ext b (ApplyClause b)" for b
    by (simp add: iff)
  have ops: "(is_derived_from ext a (left a) \<longleftrightarrow>
        fc_is_derived_from ext (left a) (left a) \<or> fc_is_derived_from ext (right a) (left a))
     \<and> (is_derived_from ext a (right a) \<longleftrightarrow>
        fc_is_derived_from ext (left a) (right a) \<or> fc_is_derived_from ext (right a) (right a))"
    using iff [of a "left a"] iff [of a "right a"] operand_not_self [of a] by simp
  have nested: "is_derived_from ext (Apply i (ApplyClause b) r ou) (ApplyClause b)
     \<and> is_derived_from ext (Apply i l (ApplyClause b) ou) (ApplyClause b)"
    using self [of b] by simp
  have q: "(LeftOperand \<in> set (is_derived_from_queries ext a x) \<longleftrightarrow> x \<noteq> ApplyClause a)
     \<and> (RightOperand \<in> set (is_derived_from_queries ext a x) \<longleftrightarrow>
        x \<noteq> ApplyClause a \<and> \<not> fc_is_derived_from ext (left a) x)
     \<and> is_derived_from_queries ext a x \<in> {[], [LeftOperand], [LeftOperand, RightOperand]}"
    by (simp add: is_derived_from_queries_def)
  have main: "(is_derived_from ext a x \<longleftrightarrow>
      (x = ApplyClause a \<or> fc_is_derived_from ext (left a) x
         \<or> fc_is_derived_from ext (right a) x))
     \<and> is_derived_from ext a (ApplyClause a)
     \<and> fc_is_derived_from ext (ApplyClause a) x = is_derived_from ext a x
     \<and> (fc_is_derived_from ext (left a) x \<longrightarrow> is_derived_from ext a x)
     \<and> (fc_is_derived_from ext (right a) x \<longrightarrow> is_derived_from ext a x)
     \<and> (x \<noteq> ApplyClause a \<and> \<not> fc_is_derived_from ext (left a) x
          \<and> \<not> fc_is_derived_from ext (right a) x \<longrightarrow> \<not> is_derived_from ext a x)"
    using iff [of a x] self [of a] by simp
  show ?thesis using main ops nested q by blast
qed

theorem is_derived_from_iff_witness:
  "fc_is_derived_from table_is_derived_from (left sample_apply) (Relation 1)
   \<and> is_derived_from table_is_derived_from sample_apply (Relation 1)
   \<and> fc_is_derived_from table_is_derived_from (right sample_apply) (Relation 2)
   \<and> is_derived_from table_is_derived_from sample_apply (Relation 2)
   \<and> is_derived_from table_is_derived_from sample_apply (ApplyClause sample_apply)
   \<and> is_derived_from table_is_derived_from nested_apply (Relation 2)
   \<and> Relation 3 \<noteq> ApplyClause sample_apply
   \<and> \<not> fc_is_derived_from table_is_derived_from (left sample_apply) (Relation 3)
   \<and> \<not> fc_is_derived_from table_is_derived_from (right sample_apply) (Relation 3)
   \<and> \<not> is_derived_from table_is_derived_from sample_apply (Relation 3)
   \<and> is_derived_from_queries table_is_derived_from sample_apply (Relation 1) = [LeftOperand]
   \<and> is_derived_from_queries table_is_derived_from sample_apply (Relation 3)
        = [LeftOperand, RightOperand]"
proof -
  have l: "left sample_apply = Relation 1" and r: "right sample_apply = FromGrouping (Relation 2)"
    by (simp_all add: sample_apply_def)
  have acc: "fc_is_derived_from table_is_derived_from (left sample_apply) (Relation 1)
     \<and> fc_is_derived_from table_is_derived_from (right sample_apply) (Relation 2)"
    by (simp add: l r)
  have un: "Relation 3 \<noteq> ApplyClause sample_apply
     \<and> \<not> fc_is_derived_from table_is_derived_from (left sample_apply) (Relation 3)
     \<and> \<not> fc_is_derived_from table_is_derived_from (right sample_apply) (Relation 3)"
    by (simp add: l r)
  have nest: "is_derived_from table_is_derived_from nested_apply (Relation 2)"
    by (simp add: nested_apply_def sample_apply_def)
  show ?thesis
    using acc un nest
      is_derived_from_iff [of table_is_derived_from sample_apply "Relation 3"]
      is_derived_from_iff [of table_is_derived_from sample_apply "Relation 1"]
      is_derived_from_iff [of table_is_derived_from sample_apply "Relation 2"]
    by (simp add: l r is_derived_from_queries_def)
qed

text \<open>
  Without the condition on the operands' own queries the answer for the right
  operand can be false. The constructor groups its right operand, and a grouping
  that passes the query on to its element does not accept itself: the APPLY of
  table 5 and the sample node is not derived from its own right operand, the
  grouping of the sample node, and the sample node is not derived from its right
  operand, the grouping of table 2.
\<close>

theorem is_derived_from_iff_counterexample:
  "Apply_init clause_expect table_self_group 9
       (Some (Relation 5)) (Some (ApplyClause sample_apply)) False = Inr nested_apply
   \<and> right nested_apply = FromGrouping (ApplyClause sample_apply)
   \<and> \<not> is_derived_from table_is_derived_from nested_apply (right nested_apply)
   \<and> Apply_init table_expect table_self_group 7 (Some 1) (Some 2) False = Inr sample_apply
   \<and> right sample_apply = FromGrouping (Relation 2)
   \<and> \<not> is_derived_from table_is_derived_from sample_apply (right sample_apply)"
  by (simp add: Apply_init_def clause_expect_def table_expect_def nested_apply_def
      sample_apply_def self_group_def)

subsection \<open>Refresh for a new column\<close>

text \<open>
  With the recording state every refresh appends to the record it is given, so the
  record of an operand's refresh can be split off.
\<close>

lemma log_append:
  "fc_refresh_for_new_column log_operand log_base x c s
     = s @ fc_refresh_for_new_column log_operand log_base x c []"
  "refresh_for_new_column log_operand log_base a c s
     = s @ refresh_for_new_column log_operand log_base a c []"
proof (induction x and a arbitrary: s and s)
  case (Relation r)
  show ?case by (simp add: log_operand_def)
next
  case (FromGrouping e)
  show ?case by (simp add: log_operand_def)
next
  case (ApplyClause a)
  show ?case using ApplyClause.IH [of s] by simp
next
  case (Apply i l r ou)
  let ?b = "BaseRefresh (Apply i l r ou)"
  let ?L = "fc_refresh_for_new_column log_operand log_base l c"
  let ?R = "fc_refresh_for_new_column log_operand log_base r c"
  have "refresh_for_new_column log_operand log_base (Apply i l r ou) c s = ?R (?L (s @ [?b]))"
    by (simp add: log_base_def)
  also have "\<dots> = ?L (s @ [?b]) @ ?R []" by (rule Apply.IH(2))
  also have "?L (s @ [?b]) = (s @ [?b]) @ ?L []" by (rule Apply.IH(1))
  finally have lhs: "refresh_for_new_column log_operand log_base (Apply i l r ou) c s
      = s @ [?b] @ ?L [] @ ?R []" by simp
  have "refresh_for_new_column log_operand log_base (Apply i l r ou) c [] = ?R (?L [?b])"
    by (simp add: log_base_def)
  also have "\<dots> = ?L [?b] @ ?R []" by (rule Apply.IH(2))
  also have "?L [?b] = [?b] @ ?L []" by (rule Apply.IH(1))
  finally have rhs: "refresh_for_new_column log_operand log_base (Apply i l r ou) c []
      = [?b] @ ?L [] @ ?R []" by simp
  show ?case unfolding lhs rhs by simp
qed

text \<open>
  C4. For every \<open>Apply\<close> and every new-column notification,
  \<open>_refresh_for_new_column\<close> first invokes the inherited (base) refresh for the
  \<open>Apply\<close> node itself, then propagates the notification to the left operand and
  then to the right operand, each operand running its own refresh. In the record of
  calls the base refresh of the node comes first, followed by the whole record of the
  left operand and then that of the right operand.
\<close>

theorem refresh_order:
  "refresh_for_new_column ext base a c s
     = fc_refresh_for_new_column ext base (right a) c
         (fc_refresh_for_new_column ext base (left a) c (base a c s))
   \<and> refresh_for_new_column log_operand log_base a c []
     = [BaseRefresh a] @ fc_refresh_for_new_column log_operand log_base (left a) c []
         @ fc_refresh_for_new_column log_operand log_base (right a) c []"
proof -
  have 1: "refresh_for_new_column ext' base' a c s'
     = fc_refresh_for_new_column ext' base' (right a) c
         (fc_refresh_for_new_column ext' base' (left a) c (base' a c s'))" for ext' base' s'
    by (cases a) simp
  let ?L = "fc_refresh_for_new_column log_operand log_base (left a) c"
  let ?R = "fc_refresh_for_new_column log_operand log_base (right a) c"
  have "refresh_for_new_column log_operand log_base a c [] = ?R (?L [BaseRefresh a])"
    by (simp add: 1 log_base_def)
  also have "\<dots> = ?L [BaseRefresh a] @ ?R []" by (rule log_append(1))
  also have "?L [BaseRefresh a] = [BaseRefresh a] @ ?L []" by (rule log_append(1))
  finally show ?thesis using 1 [of ext base s] by simp
qed

text \<open>
  The opposite order, operands first and the base refresh last, is not what the
  method does: on the sample node the recorded order is base, left, right.
\<close>

theorem refresh_order_counterexample:
  "refresh_for_new_column log_operand log_base sample_apply col_c []
     = [BaseRefresh sample_apply, OperandRefresh (Relation 1),
        OperandRefresh (FromGrouping (Relation 2))]
   \<and> refresh_for_new_column log_operand log_base sample_apply col_c []
     \<noteq> log_base sample_apply col_c
         (fc_refresh_for_new_column log_operand log_base (right sample_apply) col_c
           (fc_refresh_for_new_column log_operand log_base (left sample_apply) col_c []))"
  by (simp add: sample_apply_def log_operand_def log_base_def)

subsection \<open>Column population\<close>

text \<open>
  Facts about the keyed insertion: the keys after populating, the lookup after
  populating, and that keys stay distinct.
\<close>

lemma map_fst_update:
  "map fst (AList.update k v m)
     = (if k \<in> set (map fst m) then map fst m else map fst m @ [k])"
  by (induction m) auto

lemma populate_separate_keys_Nil: "populate_separate_keys m [] = m"
  by (simp add: populate_separate_keys_def)

lemma populate_separate_keys_Cons:
  "populate_separate_keys m ((k, v) # es) = populate_separate_keys (AList.update k v m) es"
  by (simp add: populate_separate_keys_def)

lemma first_occurrences_Cons_present:
  assumes "k \<in> S"
  shows "filter (\<lambda>x. x \<notin> S) (first_occurrences (k # ks))
     = filter (\<lambda>x. x \<notin> S) (first_occurrences ks)"
proof -
  have "filter (\<lambda>x. x \<noteq> k \<and> x \<notin> S) xs = filter (\<lambda>x. x \<notin> S) xs" for xs
    using assms by (intro filter_cong) auto
  then show ?thesis using assms by simp
qed

lemma first_occurrences_Cons_absent:
  assumes "k \<notin> S"
  shows "filter (\<lambda>x. x \<notin> S) (first_occurrences (k # ks))
     = k # filter (\<lambda>x. x \<notin> insert k S) (first_occurrences ks)"
proof -
  have "filter (\<lambda>x. x \<noteq> k \<and> x \<notin> S) xs = filter (\<lambda>x. x \<notin> insert k S) xs" for xs
    by (intro filter_cong) auto
  then show ?thesis using assms by simp
qed

lemma keys_populate:
  "map fst (populate_separate_keys m es)
     = map fst m @ filter (\<lambda>k. k \<notin> set (map fst m)) (first_occurrences (map fst es))"
proof (induction es arbitrary: m)
  case Nil
  then show ?case by (simp add: populate_separate_keys_Nil)
next
  case (Cons e es)
  obtain k v where e: "e = (k, v)" by (cases e)
  define S where "S = set (map fst m)"
  define ks where "ks = map fst es"
  have keys: "map fst (e # es) = k # ks" by (simp add: e ks_def)
  have IH: "map fst (populate_separate_keys (AList.update k v m) es)
      = map fst (AList.update k v m)
        @ filter (\<lambda>x. x \<notin> set (map fst (AList.update k v m))) (first_occurrences ks)"
    unfolding ks_def by (rule Cons.IH)
  have goal: "map fst (populate_separate_keys (AList.update k v m) es)
      = map fst m @ filter (\<lambda>x. x \<notin> S) (first_occurrences (k # ks))"
  proof (cases "k \<in> S")
    case True
    have upd: "map fst (AList.update k v m) = map fst m"
      using True unfolding S_def by (simp only: map_fst_update if_True)
    show ?thesis
      by (simp only: IH upd first_occurrences_Cons_present [OF True] S_def [symmetric])
  next
    case False
    have upd: "map fst (AList.update k v m) = map fst m @ [k]"
      using False unfolding S_def by (simp only: map_fst_update if_False)
    have S': "set (map fst m @ [k]) = insert k S" unfolding S_def by simp
    show ?thesis
      by (simp only: IH upd S' first_occurrences_Cons_absent [OF False]
          append_assoc append_Cons append_Nil)
  qed
  show ?case
    unfolding e populate_separate_keys_Cons using goal
    unfolding S_def ks_def by simp
qed

lemma map_of_populate:
  "map_of (populate_separate_keys m es) = map_of m ++ map_of (rev es)"
proof (induction es arbitrary: m)
  case Nil
  then show ?case by (simp add: populate_separate_keys_Nil)
next
  case (Cons e es)
  obtain k v where e: "e = (k, v)" by (cases e)
  have "map_of (populate_separate_keys m (e # es))
      = map_of (AList.update k v m) ++ map_of (rev es)"
    unfolding e populate_separate_keys_Cons by (rule Cons.IH)
  also have "map_of (AList.update k v m) = map_of m ++ [k \<mapsto> v]"
    by (simp add: update_conv')
  also have "(map_of m ++ [k \<mapsto> v]) ++ map_of (rev es) = map_of m ++ map_of (rev (e # es))"
    by (simp add: e)
  finally show ?case .
qed

lemma distinct_populate:
  "distinct (map fst m) \<Longrightarrow> distinct (map fst (populate_separate_keys m es))"
proof (induction es arbitrary: m)
  case Nil
  then show ?case by (simp add: populate_separate_keys_def)
next
  case (Cons e es)
  obtain k v where e: "e = (k, v)" by (cases e)
  show ?case
    using Cons.prems
    by (simp add: e populate_separate_keys_Cons Cons.IH distinct_update)
qed

lemma map_of_rev_entries:
  "map_of (rev (map (\<lambda>col. (key_label col, col)) cols)) k = last_with_key k cols"
proof (induction cols rule: rev_induct)
  case Nil
  then show ?case by (simp add: last_with_key_def)
next
  case (snoc c cols)
  then show ?case
    by (auto simp: last_with_key_def split: list.splits)
qed

text \<open>
  C1. For every \<open>Apply\<close>, after column population from empty collections the
  collection \<open>_columns\<close> holds the columns of the left operand followed by those of
  the right operand, each under its label key, with one entry per key: the keys stand
  in the order of their first occurrence, and the column under a key is the last
  column of left-then-right that carries the key. For left columns \<open>[a, b]\<close> and
  right columns \<open>[b, c]\<close> that share the key \<open>b\<close> the entries are \<open>a\<close>, the right
  \<open>b\<close>, \<open>c\<close>. The set \<open>foreign_keys\<close> is the union of the foreign keys of every
  column consumed, the overwritten left \<open>b\<close> included.
\<close>

theorem populate_column_collection_merge:
  "(let cols = fc_columns ext (left a) @ fc_columns ext (right a);
        st = populate_column_collection ext a init_collections
    in map fst (columns_coll st) = first_occurrences (map key_label cols)
     \<and> distinct (map fst (columns_coll st))
     \<and> map_of (columns_coll st) k = last_with_key k cols
     \<and> set (map snd (columns_coll st)) \<subseteq> set cols
     \<and> foreign_keys st = \<Union> (set (map col_foreign_keys cols))
     \<and> foreign_keys (populate_column_collection ext a st0)
          = foreign_keys st0 \<union> \<Union> (set (map col_foreign_keys cols))
     \<and> columns ext a = map snd (columns_coll st))
   \<and> columns_coll (populate_column_collection table_columns sample_apply init_collections)
       = [(''a'', col_a), (''b'', col_b_right), (''c'', col_c)]
   \<and> foreign_keys (populate_column_collection table_columns sample_apply init_collections)
       = {101, 102, 103}"
proof -
  obtain i l r ou where a: "a = Apply i l r ou" by (cases a)
  define cols where "cols = fc_columns ext l @ fc_columns ext r"
  define entries where "entries = map (\<lambda>col. (key_label col, col)) cols"
  define st where "st = populate_column_collection ext a init_collections"
  have coll: "columns_coll st = populate_separate_keys [] entries"
    by (simp add: st_def a init_collections_def cols_def entries_def)
  have keys: "map fst entries = map key_label cols"
    by (simp add: entries_def comp_def)
  have 1: "map fst (columns_coll st) = first_occurrences (map key_label cols)"
    unfolding coll keys_populate keys by simp
  have 2: "distinct (map fst (columns_coll st))"
    unfolding coll by (rule distinct_populate) simp
  have 3: "map_of (columns_coll st) k = last_with_key k cols"
    unfolding coll map_of_populate entries_def by (simp add: map_of_rev_entries)
  have 4: "set (map snd (columns_coll st)) \<subseteq> set cols"
  proof
    fix c assume "c \<in> set (map snd (columns_coll st))"
    then obtain k' where "(k', c) \<in> set (columns_coll st)" by auto
    then have "map_of (columns_coll st) k' = Some c"
      using 2 by simp
    then have "map_of (rev entries) k' = Some c"
      unfolding coll map_of_populate by simp
    then have "(k', c) \<in> set entries"
      by (auto dest: map_of_SomeD)
    then show "c \<in> set cols" by (auto simp: entries_def)
  qed
  have 5: "foreign_keys (populate_column_collection ext a s)
          = foreign_keys s \<union> \<Union> (set (map col_foreign_keys cols))" for s
    by (simp add: a cols_def Let_def)
  have 6: "foreign_keys st = \<Union> (set (map col_foreign_keys cols))"
    unfolding st_def 5 by (simp add: init_collections_def)
  have 7: "columns ext a = map snd (columns_coll st)"
    by (simp add: a st_def)
  have ex1: "columns_coll (populate_column_collection table_columns sample_apply init_collections)
       = [(''a'', col_a), (''b'', col_b_right), (''c'', col_c)]"
    by (simp add: sample_apply_def init_collections_def populate_separate_keys_def
        col_a_def col_b_left_def col_b_right_def col_c_def)
  have ex2: "foreign_keys (populate_column_collection table_columns sample_apply init_collections)
       = {101, 102, 103}"
    by (auto simp: sample_apply_def init_collections_def
        col_a_def col_b_left_def col_b_right_def col_c_def)
  have "left a = l" "right a = r" by (simp_all add: a)
  then show ?thesis
    using 1 2 3 4 5 [of st0] 6 7 ex1 ex2
    unfolding Let_def cols_def [symmetric] st_def [symmetric]
    by (simp only: cols_def [symmetric] simp_thms)
qed

subsection \<open>Statement construction\<close>

text \<open>
  C6. For every \<open>Apply\<close>, every filter criterion and all keyword
  arguments that do not themselves name \<open>from_obj\<close>, \<open>select\<close> builds a statement
  whose explicit FROM source is exactly the one \<open>Apply\<close>, whose selected inputs are
  the left and the right operand, so that its selected columns are the left
  operand's columns followed by the right operand's, not merged, whose filter
  criterion is the one given and whose keyword arguments are those given, unchanged.
\<close>

theorem select_builds:
  assumes "''from_obj'' \<notin> set (map fst kw)"
  shows "select a w kw
           = Inr \<lparr>raw_columns = [left a, right a], whereclause = w,
                  from_obj = [ApplyClause a], kwargs = kw\<rparr>
       \<and> (\<exists>stmt. select a w kw = Inr stmt
             \<and> from_obj stmt = [ApplyClause a]
             \<and> raw_columns stmt = [left a, right a]
             \<and> selected_columns ext stmt = fc_columns ext (left a) @ fc_columns ext (right a)
             \<and> whereclause stmt = w
             \<and> kwargs stmt = kw)"
  using assms by (simp add: select_def selected_columns_def)

theorem select_builds_witness:
  "''from_obj'' \<notin> set (map fst [(''distinct'', True)])
   \<and> select sample_apply (Some (5::nat)) [(''distinct'', True)]
       = Inr \<lparr>raw_columns = [Relation 1, FromGrouping (Relation 2)], whereclause = Some 5,
              from_obj = [ApplyClause sample_apply], kwargs = [(''distinct'', True)]\<rparr>
   \<and> selected_columns table_columns
        \<lparr>raw_columns = [Relation 1, FromGrouping (Relation 2)], whereclause = Some (5::nat),
         from_obj = [ApplyClause sample_apply], kwargs = [(''distinct'', True)]\<rparr>
       = [col_a, col_b_left, col_b_right, col_c]"
proof -
  have h: "''from_obj'' \<notin> set (map fst [(''distinct'', True)])" by simp
  show ?thesis
    using h select_builds [OF h, of sample_apply "Some (5::nat)" table_columns]
    by (simp add: sample_apply_def selected_columns_def)
qed

text \<open>
  The restriction on the keyword arguments is needed: when the caller passes
  \<open>from_obj\<close> among them the call raises \<open>TypeError\<close> and builds no statement.
\<close>

theorem select_builds_counterexample:
  "select sample_apply (None :: nat option) [(''from_obj'', [Relation (3::nat)])] = Inl TypeError"
  by (simp add: select_def)

subsection \<open>Construction\<close>

text \<open>
  The constructor by cases of the two coercions, and the writes of \<open>__init__\<close>: a
  write to \<open>self\<close> leaves every other instance as it was.
\<close>

lemma Apply_init_cases:
  "Apply_init expect sg i la ra b =
     (case expect la of Inl e \<Rightarrow> Inl e
      | Inr l \<Rightarrow> (case expect ra of Inl e \<Rightarrow> Inl e
                   | Inr r \<Rightarrow> Inr (Apply i l (fc_self_group sg r None) b)))"
  by (simp add: Apply_init_def)

lemma setattr_other: "j \<noteq> self \<Longrightarrow> setattr h self name v j = h j"
  by (simp add: setattr_def)

lemma Apply_new_frame:
  "j \<noteq> i \<Longrightarrow> snd (Apply_new expect sg i la ra b h) j = h j"
  by (simp add: Apply_new_def Apply_init_store_def Let_def setattr_other
      split: sum.splits prod.splits option.splits)

text \<open>
  C9. Construction raises exactly when the left or the right argument cannot be
  coerced, and the error is the one the coercion raised for the first argument that
  failed, passed on unchanged. Construction is atomic: the call either returns the
  complete instance, with all three attributes set, or returns the error and no
  reference. In both cases every instance that existed before the call is unchanged:
  the only writes go to the instance under construction, which nobody else holds.
\<close>

theorem Apply_init_atomic:
  "((\<exists>e. Apply_init expect sg i la ra b = Inl e)
      \<longleftrightarrow> (\<exists>e. expect la = Inl e) \<or> (\<exists>e. expect ra = Inl e))
   \<and> (Apply_init expect sg i la ra b = Inl e
      \<longleftrightarrow> expect la = Inl e \<or> ((\<exists>l. expect la = Inr l) \<and> expect ra = Inl e))
   \<and> (Apply_init expect sg i la ra b = Inr a
      \<longleftrightarrow> (\<exists>l r. expect la = Inr l \<and> expect ra = Inr r
                 \<and> a = Apply i l (fc_self_group sg r None) b))
   \<and> fst (Apply_new expect sg i la ra b h)
       = (case Apply_init expect sg i la ra b of Inl e \<Rightarrow> Inl e | Inr a \<Rightarrow> Inr i)
   \<and> snd (Apply_new expect sg i la ra b h) |` (- {i}) = h |` (- {i})
   \<and> (Apply_init expect sg i la ra b = Inr a \<longrightarrow>
        Option.bind (snd (Apply_new expect sg i la ra b h) i) (instance_of i) = Some a)"
proof -
  have 1: "(\<exists>e. Apply_init expect sg i la ra b = Inl e)
      \<longleftrightarrow> (\<exists>e. expect la = Inl e) \<or> (\<exists>e. expect ra = Inl e)"
    by (cases "expect la"; cases "expect ra") (simp_all add: Apply_init_cases)
  have 2: "Apply_init expect sg i la ra b = Inl e
      \<longleftrightarrow> expect la = Inl e \<or> ((\<exists>l. expect la = Inr l) \<and> expect ra = Inl e)"
    by (cases "expect la"; cases "expect ra") (auto simp: Apply_init_cases)
  have 3: "Apply_init expect sg i la ra b = Inr a
      \<longleftrightarrow> (\<exists>l r. expect la = Inr l \<and> expect ra = Inr r
                 \<and> a = Apply i l (fc_self_group sg r None) b)"
    by (cases "expect la"; cases "expect ra") (auto simp: Apply_init_cases)
  have 4: "fst (Apply_new expect sg i la ra b h)
       = (case Apply_init expect sg i la ra b of Inl e \<Rightarrow> Inl e | Inr a \<Rightarrow> Inr i)"
    by (cases "expect la"; cases "expect ra")
      (simp_all add: Apply_init_cases Apply_new_def Apply_init_store_def Let_def)
  have 5: "snd (Apply_new expect sg i la ra b h) |` (- {i}) = h |` (- {i})"
    by (rule ext) (simp add: restrict_map_def Apply_new_frame)
  have 6: "Apply_init expect sg i la ra b = Inr a \<longrightarrow>
        Option.bind (snd (Apply_new expect sg i la ra b h) i) (instance_of i) = Some a"
    by (cases "expect la"; cases "expect ra")
      (auto simp: Apply_init_cases Apply_new_def Apply_init_store_def Let_def
        setattr_def instance_of_def)
  show ?thesis using 1 2 3 4 5 6 by blast
qed

theorem Apply_init_atomic_witness:
  "Apply_init table_expect table_self_group 7 None (Some 2) False = Inl ''ArgumentError''
   \<and> Apply_init table_expect table_self_group 7 (Some 1) None False = Inl ''ArgumentError''
   \<and> Apply_init table_expect table_self_group 7 (Some 1) (Some 2) False = Inr sample_apply
   \<and> fst (Apply_new table_expect table_self_group 7 (Some 1) None False Map.empty)
       = Inl ''ArgumentError''
   \<and> fst (Apply_new table_expect table_self_group 7 (Some 1) (Some 2) False Map.empty)
       = Inr 7
   \<and> Option.bind
        (snd (Apply_new table_expect table_self_group 7 (Some 1) (Some 2) False Map.empty) 7)
        (instance_of 7) = Some sample_apply"
proof -
  have ok: "Apply_init table_expect table_self_group 7 (Some 1) (Some 2) False = Inr sample_apply"
    by (simp add: Apply_init_def table_expect_def sample_apply_def self_group_def)
  have l: "table_expect None = Inl ''ArgumentError''"
    by (simp add: table_expect_def)
  have r: "table_expect (Some 1) = Inr (Relation 1)"
    by (simp add: table_expect_def)
  show ?thesis
    using ok l r
      Apply_init_atomic [of table_expect table_self_group 7 "Some 1" "Some 2" False
        "''ArgumentError''" sample_apply Map.empty]
      Apply_init_atomic [of table_expect table_self_group 7 None "Some 2" False
        "''ArgumentError''" sample_apply Map.empty]
      Apply_init_atomic [of table_expect table_self_group 7 "Some 1" None False
        "''ArgumentError''" sample_apply Map.empty]
    by simp
qed

end
